theory Spec2Isabelle
  imports Main "HOL-Library.Word"
begin

section \<open>The ENS workload runtime interface (ens.h)\<close>

text \<open>
  The header declares the data that crosses the API and the seven API functions; their
  bodies live in the runtime library, which is not part of the sources. Integers of type
  \<^verbatim>\<open>uint32_t\<close> are 32-bit words, \<^verbatim>\<open>uint8_t\<close> is an 8-bit word. A pointer is an
  abstract address; \<^verbatim>\<open>NULL\<close> is address 0.
\<close>

type_synonym u32 = "32 word"
type_synonym u8 = "8 word"
type_synonym addr = nat

text \<open>
  \<^verbatim>\<open>typedef struct { uint32_t length; uint8_t* p; } ENSUserData;\<close>
  The fields carry the suffix \<open>_ud\<close>: \<open>length\<close> is the list function of HOL.
\<close>

record ENSUserData =
  length_ud :: u32
  p_ud :: addr

text \<open>The event types, \<^verbatim>\<open>#define EVENT_REQUEST 0\<close> and the four that follow it.\<close>

definition EVENT_REQUEST :: u32 where
  "EVENT_REQUEST = 0"

definition EVENT_NOTIFY :: u32 where
  "EVENT_NOTIFY = 1"

definition EVENT_SESSION_START :: u32 where
  "EVENT_SESSION_START = 10"

definition EVENT_SESSION_END :: u32 where
  "EVENT_SESSION_END = 20"

definition EVENT_SESSION_DISCONNECT :: u32 where
  "EVENT_SESSION_DISCONNECT = 21"

text \<open>
  One constructor for each function the header declares, with the arguments of the call:
  the log of a run is a list of these.
\<close>

datatype api_call =
    CallSessionStart string addr
  | CallSessionEnd u32
  | CallSessionAbort u32 u32 string
  | CallSessionRequest u32 u32 addr
  | CallSessionNotify u32 u32 addr
  | CallSessionAlloc nat
  | CallSessionFree addr

text \<open>Who is responsible for a pool buffer: the workload's code, or the runtime.\<close>

datatype owner_tag = Workload | Runtime

text \<open>
  The state a callback runs in: the \<^verbatim>\<open>ENSUserData\<close> structures and the pool buffers in
  memory, each by its address; the owner of every buffer; the API calls made so far, in
  order; and whatever state the runtime keeps for itself.
\<close>

record 'r world =
  descs :: "addr \<Rightarrow> ENSUserData option"
  bufs :: "addr \<Rightarrow> u8 list option"
  owner :: "addr \<Rightarrow> owner_tag option"
  calls :: "api_call list"
  rts :: 'r

text \<open>
  The body of \<^verbatim>\<open>ENSSessionNotify\<close> is not in the sources, so it is a parameter: any
  function of the three arguments and the state that gives the boolean result and the
  new state, or \<open>None\<close> when the call does not return.
\<close>

type_synonym 'r notify_impl =
  "u32 \<Rightarrow> u32 \<Rightarrow> addr \<Rightarrow> 'r world \<Rightarrow> (bool \<times> 'r world) option"

text \<open>
  Modelled from the spec: the ownership effect of \<^verbatim>\<open>ENSSessionNotify\<close>, whose body is
  missing. The spec says of notify that "ownership of the buffer always transfers to the
  runtime regardless of return value": the buffer that the descriptor at \<open>userdata\<close>
  references at the time of the call becomes the runtime's.
\<close>

definition transfer_to_runtime :: "'r world \<Rightarrow> addr \<Rightarrow> (addr \<Rightarrow> owner_tag option)" where
  "transfer_to_runtime w userdata =
     (case descs w userdata of
        None \<Rightarrow> owner w
      | Some ud \<Rightarrow> (owner w)(p_ud ud \<mapsto> Runtime))"

text \<open>
  \<^verbatim>\<open>bool ENSSessionNotify(uint32_t session_id, uint32_t sqn, ENSUserData* userdata);\<close>
  A call runs the runtime's implementation, appends itself to the log and hands the
  buffer over. The implementation decides the memory, the runtime's own state and the
  result; the log and the owners are bookkeeping it cannot touch.
\<close>

definition ENSSessionNotify ::
  "'r notify_impl \<Rightarrow> u32 \<Rightarrow> u32 \<Rightarrow> addr \<Rightarrow> 'r world \<Rightarrow> (bool \<times> 'r world) option" where
  "ENSSessionNotify impl session_id sqn userdata w =
     (case impl session_id sqn userdata w of
        None \<Rightarrow> None
      | Some (ok, w') \<Rightarrow>
          Some (ok, w'\<lparr>owner := transfer_to_runtime w userdata,
                       calls := calls w @ [CallSessionNotify session_id sqn userdata]\<rparr>))"

section \<open>The latency responder (latencyresponder.cpp)\<close>

text \<open>
  \<^verbatim>\<open>
  void event_handler(uint32_t session_id, uint32_t event_type, uint32_t sqn, ENSUserData* data)
  {
    if (event_type == EVENT_NOTIFY)
    {
      ENSSessionNotify(session_id, sqn, data);
    }
  }
  \<close>
  The result of the notify is dropped. \<open>None\<close> is a handler that does not return.
\<close>

definition event_handler ::
  "'r notify_impl \<Rightarrow> u32 \<Rightarrow> u32 \<Rightarrow> u32 \<Rightarrow> addr \<Rightarrow> 'r world \<Rightarrow> 'r world option" where
  "event_handler impl session_id event_type sqn data w =
     (if event_type = EVENT_NOTIFY then
        (case ENSSessionNotify impl session_id sqn data w of
           None \<Rightarrow> None
         | Some (ok, w') \<Rightarrow> Some w')
      else Some w)"

text \<open>The API calls made between two states of one run.\<close>

definition new_calls :: "'r world \<Rightarrow> 'r world \<Rightarrow> api_call list" where
  "new_calls w w' = drop (length (calls w)) (calls w')"

text \<open>The sequence numbers of the notify calls in a log, in order.\<close>

fun notify_sqns :: "api_call list \<Rightarrow> u32 list" where
  "notify_sqns [] = []"
| "notify_sqns (CallSessionNotify session_id sqn userdata # cs) = sqn # notify_sqns cs"
| "notify_sqns (c # cs) = notify_sqns cs"

text \<open>
  The data a descriptor references, as the header documents the structure: \<open>length\<close>
  bytes from the start of the buffer at \<open>p\<close>. There is none when the address holds no
  descriptor, when \<open>p\<close> is no buffer, or when the buffer is shorter than \<open>length\<close>.
\<close>

definition user_data :: "'r world \<Rightarrow> addr \<Rightarrow> u8 list option" where
  "user_data w data =
     (case descs w data of
        None \<Rightarrow> None
      | Some ud \<Rightarrow>
          (case bufs w (p_ud ud) of
             None \<Rightarrow> None
           | Some bs \<Rightarrow>
               if unat (length_ud ud) \<le> length bs
               then Some (take (unat (length_ud ud)) bs) else None))"

section \<open>The handler as a machine of program points\<close>

text \<open>
  One invocation of \<^verbatim>\<open>event_handler\<close> is a frame: its four arguments, which are local
  and never change, and a program point. At \<open>Entry\<close> the test of \<open>event_type\<close> is still to
  come, at \<open>AtNotify\<close> the call of \<^verbatim>\<open>ENSSessionNotify\<close> is next, at \<open>Returned\<close> the
  function has returned.
\<close>

datatype pc = Entry | AtNotify | Returned

record frame =
  fr_session_id :: u32
  fr_event_type :: u32
  fr_sqn :: u32
  fr_data :: addr
  fr_pc :: pc

definition invoke :: "u32 \<Rightarrow> u32 \<Rightarrow> u32 \<Rightarrow> addr \<Rightarrow> frame" where
  "invoke session_id event_type sqn data =
     \<lparr>fr_session_id = session_id, fr_event_type = event_type, fr_sqn = sqn,
      fr_data = data, fr_pc = Entry\<rparr>"

text \<open>
  One step of a frame on the shared state. The test reads the frame only. A notify call
  that does not return leaves the frame where it is.
\<close>

definition step :: "'r notify_impl \<Rightarrow> frame \<Rightarrow> 'r world \<Rightarrow> frame \<times> 'r world" where
  "step impl f w =
     (case fr_pc f of
        Entry \<Rightarrow>
          (f\<lparr>fr_pc := (if fr_event_type f = EVENT_NOTIFY then AtNotify else Returned)\<rparr>, w)
      | AtNotify \<Rightarrow>
          (case ENSSessionNotify impl (fr_session_id f) (fr_sqn f) (fr_data f) w of
             None \<Rightarrow> (f, w)
           | Some (ok, w') \<Rightarrow> (f\<lparr>fr_pc := Returned\<rparr>, w'))
      | Returned \<Rightarrow> (f, w))"

text \<open>A frame running alone for \<open>n\<close> steps.\<close>

fun steps :: "'r notify_impl \<Rightarrow> nat \<Rightarrow> frame \<times> 'r world \<Rightarrow> frame \<times> 'r world" where
  "steps impl 0 s = s"
| "steps impl (Suc n) (f, w) = steps impl n (step impl f w)"

text \<open>
  Two invocations on one shared state, as the runtime's thread pool may run them: the
  schedule says which frame takes each step (\<open>True\<close> the first, \<open>False\<close> the second).
\<close>

fun interleave ::
  "'r notify_impl \<Rightarrow> bool list \<Rightarrow> frame \<times> frame \<times> 'r world \<Rightarrow> frame \<times> frame \<times> 'r world" where
  "interleave impl [] s = s"
| "interleave impl (b # bs) (f1, f2, w) =
     (if b then (case step impl f1 w of (f1', w') \<Rightarrow> interleave impl bs (f1', f2, w'))
      else (case step impl f2 w of (f2', w') \<Rightarrow> interleave impl bs (f1, f2', w')))"

section \<open>Concrete states for evaluation\<close>

text \<open>
  Three runtimes: one whose notify succeeds and changes nothing, one whose notify reports
  failure, and one whose notify does not return.
\<close>

definition notify_ok :: "unit notify_impl" where
  "notify_ok session_id sqn userdata w = Some (True, w)"

definition notify_fails :: "unit notify_impl" where
  "notify_fails session_id sqn userdata w = Some (False, w)"

definition notify_hangs :: "unit notify_impl" where
  "notify_hangs session_id sqn userdata w = None"

text \<open>The bytes of an ASCII string.\<close>

definition ascii :: "string \<Rightarrow> u8 list" where
  "ascii s = map (\<lambda>c. of_nat (of_char c)) s"

text \<open>
  A state with one descriptor, at address 100, whose buffer at address 200 holds the given
  bytes and is the workload's; nothing has been called yet.
\<close>

definition world_with :: "u8 list \<Rightarrow> unit world" where
  "world_with bs =
     \<lparr>descs = [100 \<mapsto> \<lparr>length_ud = of_nat (length bs), p_ud = 200\<rparr>],
      bufs = [200 \<mapsto> bs],
      owner = [200 \<mapsto> Workload],
      calls = [],
      rts = ()\<rparr>"

text \<open>
  A state with two descriptors, at addresses 100 and 101, for two events in flight at
  once; their buffers are at 200 and 201.
\<close>

definition world_with_two :: "u8 list \<Rightarrow> u8 list \<Rightarrow> unit world" where
  "world_with_two bs1 bs2 =
     \<lparr>descs = [100 \<mapsto> \<lparr>length_ud = of_nat (length bs1), p_ud = 200\<rparr>,
               101 \<mapsto> \<lparr>length_ud = of_nat (length bs2), p_ud = 201\<rparr>],
      bufs = [200 \<mapsto> bs1, 201 \<mapsto> bs2],
      owner = [200 \<mapsto> Workload, 201 \<mapsto> Workload],
      calls = [],
      rts = ()\<rparr>"

text \<open>
  A change to the shared state made by someone else: a buffer appears at address 300.
\<close>

definition touch :: "unit world \<Rightarrow> unit world" where
  "touch v = v\<lparr>bufs := (bufs v)(300 \<mapsto> [1])\<rparr>"

text \<open>
  The calls an invocation makes, as a function of its arguments alone: those of a run
  from the empty log against the runtime that returns.
\<close>

definition handler_calls :: "u32 \<Rightarrow> u32 \<Rightarrow> u32 \<Rightarrow> addr \<Rightarrow> api_call list" where
  "handler_calls session_id event_type sqn data =
     (case event_handler notify_ok session_id event_type sqn data (world_with []) of
        None \<Rightarrow> []
      | Some w' \<Rightarrow> calls w')"

text \<open>
  A frame that a run from \<open>Entry\<close> can be in: the call is next for a notify event only.
\<close>

definition reachable_frame :: "frame \<Rightarrow> bool" where
  "reachable_frame f = (fr_pc f \<noteq> AtNotify \<or> fr_event_type f = EVENT_NOTIFY)"

text \<open>The calls a frame has still to make: none once it has returned.\<close>

definition pending_calls :: "frame \<Rightarrow> api_call list" where
  "pending_calls f =
     (if fr_pc f = Returned then []
      else handler_calls (fr_session_id f) (fr_event_type f) (fr_sqn f) (fr_data f))"

text \<open>
  A frame running alone to its return: from \<open>Entry\<close> that is the function itself, from
  \<open>AtNotify\<close> the call that is left, from \<open>Returned\<close> nothing.
\<close>

definition finish :: "'r notify_impl \<Rightarrow> frame \<Rightarrow> 'r world \<Rightarrow> 'r world option" where
  "finish impl f w =
     (case fr_pc f of
        Entry \<Rightarrow> event_handler impl (fr_session_id f) (fr_event_type f) (fr_sqn f) (fr_data f) w
      | AtNotify \<Rightarrow>
          map_option snd (ENSSessionNotify impl (fr_session_id f) (fr_sqn f) (fr_data f) w)
      | Returned \<Rightarrow> Some w)"

section \<open>The runtime around the callback\<close>

text \<open>
  Modelled from the spec: the dispatcher's handling of a request event, which is code of
  the runtime and not in the sources. "After a callback returns from a request event, the
  (possibly replaced) user-data reference is packaged and sent back as the response": the
  response is the data that the descriptor references when the callback has returned, and
  there is none when the callback does not return or the descriptor references no data.
\<close>

definition dispatch_request ::
  "(u32 \<Rightarrow> u32 \<Rightarrow> u32 \<Rightarrow> addr \<Rightarrow> 'r world \<Rightarrow> 'r world option) \<Rightarrow>
   u32 \<Rightarrow> u32 \<Rightarrow> addr \<Rightarrow> 'r world \<Rightarrow> u8 list option" where
  "dispatch_request callback session_id sqn data w =
     (case callback session_id EVENT_REQUEST sqn data w of
        None \<Rightarrow> None
      | Some w' \<Rightarrow> user_data w' data)"

text \<open>
  Modelled from the spec: the round trip of a request, of which only the callback is in
  the sources. Workload A calls \<open>request(session, sqn, data)\<close>; workload B's callback
  receives \<open>(session, REQUEST, sqn, data)\<close>, here in the state \<open>world_with data\<close> with
  the descriptor at address 100; A's request "returns false on abort/timeout/session
  failure, true with userdata rewritten to the response buffer on success".
\<close>

definition round_trip ::
  "(u32 \<Rightarrow> u32 \<Rightarrow> u32 \<Rightarrow> addr \<Rightarrow> unit world \<Rightarrow> unit world option) \<Rightarrow>
   u32 \<Rightarrow> u32 \<Rightarrow> u8 list \<Rightarrow> bool \<times> u8 list option" where
  "round_trip callback session sqn payload =
     (case dispatch_request callback session sqn 100 (world_with payload) of
        None \<Rightarrow> (False, None)
      | Some response \<Rightarrow> (True, Some response))"

text \<open>
  Modelled from the spec: which API operations wait for the remote side. "\<open>request\<close>
  blocks the calling thread until response, session-end, or disconnect; \<open>end\<close> may
  briefly block"; "\<open>notify\<close>, \<open>alloc\<close>, \<open>free\<close>, \<open>start\<close> do not block on remote
  completion". The deprecated \<open>abort\<close> is "equivalent to end".
\<close>

fun blocking :: "api_call \<Rightarrow> bool" where
  "blocking (CallSessionRequest session_id sqn userdata) = True"
| "blocking (CallSessionEnd session_id) = True"
| "blocking (CallSessionAbort session_id reason info) = True"
| "blocking (CallSessionStart interface_name event_fn) = False"
| "blocking (CallSessionNotify session_id sqn userdata) = False"
| "blocking (CallSessionAlloc n) = False"
| "blocking (CallSessionFree p) = False"

section \<open>Helper facts\<close>

lemma ENSSessionNotify_calls:
  "ENSSessionNotify impl session_id sqn userdata w = Some (ok, w') \<Longrightarrow>
   calls w' = calls w @ [CallSessionNotify session_id sqn userdata]"
  by (auto simp: ENSSessionNotify_def split: option.splits)

lemma ENSSessionNotify_returns:
  "impl session_id sqn userdata w = Some (ok, w1) \<Longrightarrow>
   ENSSessionNotify impl session_id sqn userdata w =
     Some (ok, w1\<lparr>owner := transfer_to_runtime w userdata,
                  calls := calls w @ [CallSessionNotify session_id sqn userdata]\<rparr>)"
  by (simp add: ENSSessionNotify_def)

lemma event_handler_notify:
  "event_handler impl session_id EVENT_NOTIFY sqn data w = Some w' \<Longrightarrow>
   \<exists>ok. ENSSessionNotify impl session_id sqn data w = Some (ok, w')"
  by (auto simp: event_handler_def split: option.splits)

lemma event_handler_other:
  "event_type \<noteq> EVENT_NOTIFY \<Longrightarrow> event_handler impl session_id event_type sqn data w = Some w"
  by (simp add: event_handler_def)

lemma new_calls_append: "calls w' = calls w @ cs \<Longrightarrow> new_calls w w' = cs"
  by (simp add: new_calls_def)

lemma handler_calls_eq:
  "handler_calls session_id event_type sqn data =
     (if event_type = EVENT_NOTIFY then [CallSessionNotify session_id sqn data] else [])"
  by (simp add: handler_calls_def event_handler_def ENSSessionNotify_def notify_ok_def
      world_with_def)

lemma event_handler_calls:
  "event_handler impl session_id event_type sqn data w = Some w' \<Longrightarrow>
   calls w' = calls w @ handler_calls session_id event_type sqn data"
  by (auto simp: handler_calls_eq event_handler_def ENSSessionNotify_def
      split: option.splits if_splits)

text \<open>Two concrete runs: a notify event answered by a notify, and a request event.\<close>

lemma notify_hi_run:
  "event_handler notify_ok 7 EVENT_NOTIFY 5 100 (world_with (ascii ''hi''))
     = Some ((world_with (ascii ''hi''))
          \<lparr>owner := [200 \<mapsto> Runtime], calls := [CallSessionNotify 7 5 100]\<rparr>)"
  by (simp add: event_handler_def ENSSessionNotify_def notify_ok_def
      transfer_to_runtime_def world_with_def EVENT_NOTIFY_def)

lemma request_ping_run:
  "event_handler notify_ok 7 EVENT_REQUEST 42 100 (world_with (ascii ''ping''))
     = Some (world_with (ascii ''ping''))"
  by (simp add: event_handler_def EVENT_NOTIFY_def EVENT_REQUEST_def)

text \<open>When the notify call does not return, neither does the handler.\<close>

lemma notify_hangs_handler_hangs:
  "event_handler notify_hangs session_id EVENT_NOTIFY sqn data w = None"
  by (simp add: event_handler_def ENSSessionNotify_def notify_hangs_def)

lemma user_data_world_with:
  "length bs < 2 ^ 32 \<Longrightarrow> user_data (world_with bs) 100 = Some bs"
  by (simp add: user_data_def world_with_def unsigned_of_nat take_bit_nat_eq_self)

lemma ascii_ping: "ascii ''ping'' = [0x70, 0x69, 0x6E, 0x67]"
  by (simp add: ascii_def)

lemma ascii_pong: "ascii ''pong'' = [0x70, 0x6F, 0x6E, 0x67]"
  by (simp add: ascii_def)

subsection \<open>The machine of program points\<close>

lemma step_entry:
  "step impl (invoke session_id event_type sqn data) w =
     ((invoke session_id event_type sqn data)
        \<lparr>fr_pc := (if event_type = EVENT_NOTIFY then AtNotify else Returned)\<rparr>, w)"
  by (simp add: step_def invoke_def)

lemma reachable_invoke: "reachable_frame (invoke session_id event_type sqn data)"
  by (simp add: reachable_frame_def invoke_def)

lemma pending_invoke:
  "pending_calls (invoke session_id event_type sqn data) =
     handler_calls session_id event_type sqn data"
  by (simp add: pending_calls_def invoke_def)

text \<open>
  A step either leaves both the log and the frame's pending calls as they are, or moves
  the pending calls to the end of the log.
\<close>

lemma step_progress:
  assumes "reachable_frame f" and "step impl f w = (f', w')"
  shows "reachable_frame f' \<and>
         (pending_calls f' = pending_calls f \<and> calls w' = calls w
          \<or> pending_calls f' = [] \<and> calls w' = calls w @ pending_calls f)"
proof (cases "fr_pc f")
  case Entry
  with assms show ?thesis
    by (auto simp: step_def reachable_frame_def pending_calls_def handler_calls_eq)
next
  case AtNotify
  with assms(1) have ev: "fr_event_type f = EVENT_NOTIFY"
    by (simp add: reachable_frame_def)
  show ?thesis
  proof (cases "ENSSessionNotify impl (fr_session_id f) (fr_sqn f) (fr_data f) w")
    case None
    with AtNotify assms show ?thesis
      by (auto simp: step_def)
  next
    case (Some r)
    obtain ok w1 where r: "r = (ok, w1)"
      by (cases r)
    with Some have c:
      "calls w1 = calls w @ [CallSessionNotify (fr_session_id f) (fr_sqn f) (fr_data f)]"
      by (simp add: ENSSessionNotify_calls)
    from Some r AtNotify assms(2) have "f' = f\<lparr>fr_pc := Returned\<rparr>" "w' = w1"
      by (auto simp: step_def)
    with c ev AtNotify show ?thesis
      by (simp add: reachable_frame_def pending_calls_def handler_calls_eq)
  qed
next
  case Returned
  with assms show ?thesis
    by (auto simp: step_def)
qed

text \<open>
  Whatever the schedule, once both frames have returned the log has grown by the pending
  calls of the two, in one order or the other. Induction on the schedule, for any two
  reachable frames.
\<close>

lemma interleave_log:
  assumes "reachable_frame f1" and "reachable_frame f2"
    and "interleave impl sch (f1, f2, w) = (f1', f2', w')"
    and "fr_pc f1' = Returned" and "fr_pc f2' = Returned"
  shows "calls w' = calls w @ pending_calls f1 @ pending_calls f2
         \<or> calls w' = calls w @ pending_calls f2 @ pending_calls f1"
  using assms
proof (induction sch arbitrary: f1 f2 w)
  case Nil
  then show ?case
    by (simp add: pending_calls_def)
next
  case (Cons b sch)
  show ?case
  proof (cases b)
    case True
    obtain fa wa where s: "step impl f1 w = (fa, wa)"
      by (cases "step impl f1 w")
    with True Cons.prems(3) have run: "interleave impl sch (fa, f2, wa) = (f1', f2', w')"
      by simp
    from step_progress [OF Cons.prems(1) s] have r: "reachable_frame fa"
      and p: "pending_calls fa = pending_calls f1 \<and> calls wa = calls w
              \<or> pending_calls fa = [] \<and> calls wa = calls w @ pending_calls f1"
      by simp_all
    from Cons.IH [OF r Cons.prems(2) run Cons.prems(4) Cons.prems(5)] p
    show ?thesis
      by auto
  next
    case False
    obtain fa wa where s: "step impl f2 w = (fa, wa)"
      by (cases "step impl f2 w")
    with False Cons.prems(3) have run: "interleave impl sch (f1, fa, wa) = (f1', f2', w')"
      by simp
    from step_progress [OF Cons.prems(2) s] have r: "reachable_frame fa"
      and p: "pending_calls fa = pending_calls f2 \<and> calls wa = calls w
              \<or> pending_calls fa = [] \<and> calls wa = calls w @ pending_calls f2"
      by simp_all
    from Cons.IH [OF Cons.prems(1) r run Cons.prems(4) Cons.prems(5)] p
    show ?thesis
      by auto
  qed
qed

subsection \<open>The whole state\<close>

text \<open>
  What a step, and what the function, does to the state: nothing, or exactly what the one
  call of \<^verbatim>\<open>ENSSessionNotify\<close> with its own arguments does. A change of the state that
  the call lets through passes through the handler. Two interleaved invocations leave
  the state that they leave when one runs after the other.
\<close>

lemma finish_invoke:
  "finish impl (invoke session_id event_type sqn data) w =
     event_handler impl session_id event_type sqn data w"
  by (simp add: finish_def invoke_def)

lemma finish_returned: "fr_pc f = Returned \<Longrightarrow> finish impl f w = Some w"
  by (simp add: finish_def)

lemma step_whole_state:
  assumes "step impl f w = (f', w')"
  shows "w' = w \<or> (\<exists>ok. fr_pc f = AtNotify \<and>
           ENSSessionNotify impl (fr_session_id f) (fr_sqn f) (fr_data f) w = Some (ok, w'))"
  using assms by (cases "fr_pc f") (auto simp: step_def split: option.splits)

lemma event_handler_whole_state:
  assumes "event_handler impl session_id event_type sqn data w = Some w'"
  shows "w' = w \<or> (\<exists>ok. event_type = EVENT_NOTIFY \<and>
           ENSSessionNotify impl session_id sqn data w = Some (ok, w'))"
  using assms by (auto simp: event_handler_def split: if_splits option.splits)

lemma event_handler_equivariant:
  assumes "ENSSessionNotify impl session_id sqn data (g w) =
             map_option (apsnd g) (ENSSessionNotify impl session_id sqn data w)"
  shows "event_handler impl session_id event_type sqn data (g w) =
           map_option g (event_handler impl session_id event_type sqn data w)"
  using assms by (auto simp: event_handler_def split: option.splits)

lemma step_finish:
  assumes "reachable_frame f" and "step impl f w = (fa, wa)"
  shows "reachable_frame fa \<and>
         (wa = w \<and> (\<forall>v. finish impl fa v = finish impl f v)
          \<or> finish impl f w = Some wa \<and> fr_pc fa = Returned)"
proof (cases "fr_pc f")
  case Entry
  with assms show ?thesis
    by (auto simp: step_def reachable_frame_def finish_def event_handler_def
        split: option.splits)
next
  case AtNotify
  with assms show ?thesis
    by (auto simp: step_def reachable_frame_def finish_def split: option.splits)
next
  case Returned
  with assms show ?thesis
    by (auto simp: step_def)
qed

lemma interleave_serial:
  assumes "reachable_frame f1" and "reachable_frame f2"
    and "interleave impl sch (f1, f2, w) = (f1', f2', w')"
    and "fr_pc f1' = Returned" and "fr_pc f2' = Returned"
  shows "(\<exists>wm. finish impl f1 w = Some wm \<and> finish impl f2 wm = Some w')
         \<or> (\<exists>wm. finish impl f2 w = Some wm \<and> finish impl f1 wm = Some w')"
  using assms
proof (induction sch arbitrary: f1 f2 w)
  case Nil
  then show ?case
    by (simp add: finish_returned)
next
  case (Cons b sch)
  show ?case
  proof (cases b)
    case True
    obtain fa wa where s: "step impl f1 w = (fa, wa)"
      by (cases "step impl f1 w")
    with True Cons.prems(3) have run: "interleave impl sch (fa, f2, wa) = (f1', f2', w')"
      by simp
    from step_finish [OF Cons.prems(1) s] have r: "reachable_frame fa"
      and p: "wa = w \<and> (\<forall>v. finish impl fa v = finish impl f1 v)
              \<or> finish impl f1 w = Some wa \<and> fr_pc fa = Returned"
      by simp_all
    note ih = Cons.IH [OF r Cons.prems(2) run Cons.prems(4) Cons.prems(5)]
    from p show ?thesis
    proof
      assume "wa = w \<and> (\<forall>v. finish impl fa v = finish impl f1 v)"
      with ih show ?thesis by simp
    next
      assume q: "finish impl f1 w = Some wa \<and> fr_pc fa = Returned"
      then have "\<And>v. finish impl fa v = Some v"
        by (simp add: finish_returned)
      with ih have "finish impl f2 wa = Some w'"
        by auto
      with q show ?thesis by blast
    qed
  next
    case False
    obtain fa wa where s: "step impl f2 w = (fa, wa)"
      by (cases "step impl f2 w")
    with False Cons.prems(3) have run: "interleave impl sch (f1, fa, wa) = (f1', f2', w')"
      by simp
    from step_finish [OF Cons.prems(2) s] have r: "reachable_frame fa"
      and p: "wa = w \<and> (\<forall>v. finish impl fa v = finish impl f2 v)
              \<or> finish impl f2 w = Some wa \<and> fr_pc fa = Returned"
      by simp_all
    note ih = Cons.IH [OF Cons.prems(1) r run Cons.prems(4) Cons.prems(5)]
    from p show ?thesis
    proof
      assume "wa = w \<and> (\<forall>v. finish impl fa v = finish impl f2 v)"
      with ih show ?thesis by simp
    next
      assume q: "finish impl f2 w = Some wa \<and> fr_pc fa = Returned"
      then have "\<And>v. finish impl fa v = Some v"
        by (simp add: finish_returned)
      with ih have "finish impl f1 wa = Some w'"
        by auto
      with q show ?thesis by blast
    qed
  qed
qed

lemma two_notifies_run:
  "interleave notify_ok [False, True, False, True]
        (invoke 7 EVENT_NOTIFY 5 100, invoke 7 EVENT_NOTIFY 6 101,
         world_with_two (ascii ''hi'') (ascii ''yo''))
      = ((invoke 7 EVENT_NOTIFY 5 100)\<lparr>fr_pc := Returned\<rparr>,
         (invoke 7 EVENT_NOTIFY 6 101)\<lparr>fr_pc := Returned\<rparr>,
         (world_with_two (ascii ''hi'') (ascii ''yo''))
           \<lparr>owner := [200 \<mapsto> Runtime, 201 \<mapsto> Runtime],
            calls := [CallSessionNotify 7 6 101, CallSessionNotify 7 5 100]\<rparr>)"
  by (simp add: step_def invoke_def ENSSessionNotify_def notify_ok_def
      transfer_to_runtime_def world_with_two_def fun_upd_twist)

lemma second_then_first_run:
  "event_handler notify_ok 7 EVENT_NOTIFY 6 101 (world_with_two (ascii ''hi'') (ascii ''yo''))
     = Some ((world_with_two (ascii ''hi'') (ascii ''yo''))
           \<lparr>owner := [200 \<mapsto> Workload, 201 \<mapsto> Runtime],
            calls := [CallSessionNotify 7 6 101]\<rparr>)"
  by (simp add: event_handler_def ENSSessionNotify_def notify_ok_def
      transfer_to_runtime_def world_with_two_def EVENT_NOTIFY_def)

lemma touch_commutes:
  "ENSSessionNotify notify_ok 7 5 100 (touch (world_with (ascii ''hi'')))
     = map_option (apsnd touch) (ENSSessionNotify notify_ok 7 5 100 (world_with (ascii ''hi'')))"
  by (simp add: ENSSessionNotify_def notify_ok_def touch_def transfer_to_runtime_def
      world_with_def)

section \<open>Claims\<close>

text \<open>
  C1. For an event of type \<open>EVENT_NOTIFY\<close>, when the runtime's notify returns (with
  either result), the handler returns, and it has called \<^verbatim>\<open>ENSSessionNotify\<close> exactly
  once, with the session identifier, the sequence number and the userdata pointer it was
  given, and made no other API call: the state it returns is the state that call left,
  and its log is the log at entry followed by that one call.
\<close>

theorem notify_echoes_once:
  assumes "impl session_id sqn data w = Some (ok, w1)"
  shows "\<exists>w'. event_handler impl session_id EVENT_NOTIFY sqn data w = Some w'
           \<and> ENSSessionNotify impl session_id sqn data w = Some (ok, w')
           \<and> calls w' = calls w @ [CallSessionNotify session_id sqn data]
           \<and> new_calls w w' = [CallSessionNotify session_id sqn data]"
proof -
  let ?w' = "w1\<lparr>owner := transfer_to_runtime w data,
                 calls := calls w @ [CallSessionNotify session_id sqn data]\<rparr>"
  have n: "ENSSessionNotify impl session_id sqn data w = Some (ok, ?w')"
    using assms by (rule ENSSessionNotify_returns)
  then have h: "event_handler impl session_id EVENT_NOTIFY sqn data w = Some ?w'"
    by (simp add: event_handler_def)
  have c: "calls ?w' = calls w @ [CallSessionNotify session_id sqn data]"
    by simp
  then have "new_calls w ?w' = [CallSessionNotify session_id sqn data]"
    by (rule new_calls_append)
  with n h c show ?thesis
    by blast
qed

theorem notify_echoes_once_witness:
  "event_handler notify_ok 7 EVENT_NOTIFY 5 100 (world_with (ascii ''hi'')) \<noteq> None
   \<and> calls (the (event_handler notify_ok 7 EVENT_NOTIFY 5 100 (world_with (ascii ''hi''))))
     = [CallSessionNotify 7 5 100]
   \<and> event_handler notify_fails 7 EVENT_NOTIFY 5 100 (world_with (ascii ''hi'')) \<noteq> None
   \<and> new_calls (world_with (ascii ''hi''))
        (the (event_handler notify_fails 7 EVENT_NOTIFY 5 100 (world_with (ascii ''hi''))))
     = [CallSessionNotify 7 5 100]"
proof -
  let ?w = "world_with (ascii ''hi'')"
  have r1: "notify_ok 7 5 100 ?w = Some (True, ?w)"
    by (simp add: notify_ok_def)
  have r2: "notify_fails 7 5 100 ?w = Some (False, ?w)"
    by (simp add: notify_fails_def)
  have e: "calls ?w = []"
    by (simp add: world_with_def)
  from notify_echoes_once [where impl = notify_ok and session_id = 7 and sqn = 5, OF r1]
    notify_echoes_once [where impl = notify_fails and session_id = 7 and sqn = 5, OF r2] e
  show ?thesis
    by auto
qed

text \<open>
  C2. For an event of type \<open>EVENT_REQUEST\<close> the handler returns the state it was given:
  the descriptor (length and buffer pointer), the buffers and the log of API calls are
  all as they were, so no API call was made. The response that the runtime packages from
  the descriptor after the callback has returned is therefore the request data.
\<close>

theorem request_returns_unchanged:
  "event_handler impl session_id EVENT_REQUEST sqn data w = Some w
   \<and> dispatch_request (event_handler impl) session_id sqn data w = user_data w data"
  by (simp add: event_handler_def dispatch_request_def EVENT_REQUEST_def EVENT_NOTIFY_def)

theorem request_returns_unchanged_witness:
  "event_handler notify_ok 7 EVENT_REQUEST 42 100 (world_with (ascii ''ping''))
     = Some (world_with (ascii ''ping''))
   \<and> dispatch_request (event_handler notify_ok) 7 42 100 (world_with (ascii ''ping''))
     = Some (ascii ''ping'')"
  using request_returns_unchanged [of notify_ok 7 42 100 "world_with (ascii ''ping'')"]
  by (simp add: user_data_world_with ascii_ping)

text \<open>
  C3. For an event of type \<open>EVENT_NOTIFY\<close> whose buffer is the workload's at entry, and
  whatever boolean \<open>ok\<close> the notify call gives: the handler returns exactly the state
  that the one \<^verbatim>\<open>ENSSessionNotify\<close> call left (nothing is read, written or called after
  the buffer has been handed over), that call is the only API call of the run, the
  buffer is the runtime's afterwards, and the buffers the workload is responsible for
  are those it had before without the received one: none is left behind, none is freed
  twice.
\<close>

theorem notify_hands_buffer_over:
  assumes "descs w data = Some ud"
    and "owner w (p_ud ud) = Some Workload"
    and "impl session_id sqn data w = Some (ok, w1)"
  shows "\<exists>w'. event_handler impl session_id EVENT_NOTIFY sqn data w = Some w'
           \<and> ENSSessionNotify impl session_id sqn data w = Some (ok, w')
           \<and> new_calls w w' = [CallSessionNotify session_id sqn data]
           \<and> owner w' (p_ud ud) = Some Runtime
           \<and> {b. owner w' b = Some Workload} = {b. owner w b = Some Workload} - {p_ud ud}"
proof -
  let ?w' = "w1\<lparr>owner := transfer_to_runtime w data,
                 calls := calls w @ [CallSessionNotify session_id sqn data]\<rparr>"
  have n: "ENSSessionNotify impl session_id sqn data w = Some (ok, ?w')"
    using assms(3) by (rule ENSSessionNotify_returns)
  then have h: "event_handler impl session_id EVENT_NOTIFY sqn data w = Some ?w'"
    by (simp add: event_handler_def)
  have c: "new_calls w ?w' = [CallSessionNotify session_id sqn data]"
    by (simp add: new_calls_def)
  have o: "owner ?w' = (owner w)(p_ud ud \<mapsto> Runtime)"
    using assms(1) by (simp add: transfer_to_runtime_def)
  then have o1: "owner ?w' (p_ud ud) = Some Runtime"
    by simp
  have o2: "{b. owner ?w' b = Some Workload} = {b. owner w b = Some Workload} - {p_ud ud}"
    unfolding o by auto
  from n h c o1 o2 show ?thesis
    by blast
qed

theorem notify_hands_buffer_over_witness:
  "owner (the (event_handler notify_ok 7 EVENT_NOTIFY 5 100 (world_with (ascii ''hi'')))) 200
     = Some Runtime
   \<and> owner (the (event_handler notify_fails 7 EVENT_NOTIFY 5 100 (world_with (ascii ''hi'')))) 200
     = Some Runtime
   \<and> new_calls (world_with (ascii ''hi''))
       (the (event_handler notify_fails 7 EVENT_NOTIFY 5 100 (world_with (ascii ''hi''))))
     = [CallSessionNotify 7 5 100]
   \<and> {b. owner (the (event_handler notify_fails 7 EVENT_NOTIFY 5 100
          (world_with (ascii ''hi'')))) b = Some Workload} = {}"
proof -
  let ?w = "world_with (ascii ''hi'')"
  let ?ud = "\<lparr>length_ud = 2, p_ud = 200\<rparr>"
  have d: "descs ?w 100 = Some ?ud"
    by (simp add: world_with_def ascii_def)
  have o: "owner ?w (p_ud ?ud) = Some Workload"
    by (simp add: world_with_def)
  have r1: "notify_ok 7 5 100 ?w = Some (True, ?w)"
    by (simp add: notify_ok_def)
  have r2: "notify_fails 7 5 100 ?w = Some (False, ?w)"
    by (simp add: notify_fails_def)
  have e: "{b. owner ?w b = Some Workload} - {p_ud ?ud} = {}"
    by (auto simp: world_with_def split: if_splits)
  from notify_hands_buffer_over [where impl = notify_ok and session_id = 7 and sqn = 5,
      OF d o r1]
    notify_hands_buffer_over [where impl = notify_fails and session_id = 7 and sqn = 5,
      OF d o r2] e
  show ?thesis
    by auto
qed

text \<open>
  C4. For an event whose type is neither \<open>EVENT_NOTIFY\<close> nor \<open>EVENT_REQUEST\<close> (a session
  start, end or disconnect, or a value that names no event type) the handler returns
  the state it was given: no API call is added to the log and the userdata descriptor
  is as it was.
\<close>

theorem other_events_unchanged:
  assumes "event_type \<noteq> EVENT_NOTIFY" and "event_type \<noteq> EVENT_REQUEST"
  shows "event_handler impl session_id event_type sqn data w = Some w"
  using assms by (simp add: event_handler_def)

theorem other_events_unchanged_witness:
  "event_handler notify_ok 7 EVENT_SESSION_START 0 100 (world_with []) = Some (world_with [])
   \<and> event_handler notify_ok 7 EVENT_SESSION_END 0 100 (world_with []) = Some (world_with [])
   \<and> event_handler notify_ok 7 EVENT_SESSION_DISCONNECT 0 100 (world_with [])
       = Some (world_with [])
   \<and> event_handler notify_ok 7 99 0 100 (world_with []) = Some (world_with [])"
proof -
  have t: "EVENT_SESSION_START \<noteq> EVENT_NOTIFY" "EVENT_SESSION_START \<noteq> EVENT_REQUEST"
    "EVENT_SESSION_END \<noteq> EVENT_NOTIFY" "EVENT_SESSION_END \<noteq> EVENT_REQUEST"
    "EVENT_SESSION_DISCONNECT \<noteq> EVENT_NOTIFY" "EVENT_SESSION_DISCONNECT \<noteq> EVENT_REQUEST"
    "99 \<noteq> EVENT_NOTIFY" "99 \<noteq> EVENT_REQUEST"
    by (simp_all add: EVENT_SESSION_START_def EVENT_SESSION_END_def
        EVENT_SESSION_DISCONNECT_def EVENT_NOTIFY_def EVENT_REQUEST_def)
  show ?thesis
    using other_events_unchanged [OF t(1) t(2), of notify_ok 7 0 100 "world_with []"]
      other_events_unchanged [OF t(3) t(4), of notify_ok 7 0 100 "world_with []"]
      other_events_unchanged [OF t(5) t(6), of notify_ok 7 0 100 "world_with []"]
      other_events_unchanged [OF t(7) t(8), of notify_ok 7 0 100 "world_with []"]
    by simp
qed

text \<open>
  C5. For an event of type \<open>EVENT_NOTIFY\<close> whose sequence number is not zero, as the
  runtime guarantees for data-transfer events, the notify calls of the run carry exactly
  that sequence number: none of them has sequence number zero.
\<close>

theorem echoed_sqn_nonzero:
  assumes "sqn \<noteq> 0"
    and "event_handler impl session_id EVENT_NOTIFY sqn data w = Some w'"
  shows "notify_sqns (new_calls w w') = [sqn] \<and> 0 \<notin> set (notify_sqns (new_calls w w'))"
proof -
  have "calls w' = calls w @ handler_calls session_id EVENT_NOTIFY sqn data"
    using assms(2) by (rule event_handler_calls)
  then have "new_calls w w' = [CallSessionNotify session_id sqn data]"
    by (simp add: new_calls_append handler_calls_eq)
  with assms(1) show ?thesis by simp
qed

theorem echoed_sqn_nonzero_witness:
  "(5::u32) \<noteq> 0
   \<and> notify_sqns (new_calls (world_with (ascii ''hi''))
        ((world_with (ascii ''hi''))
          \<lparr>owner := [200 \<mapsto> Runtime], calls := [CallSessionNotify 7 5 100]\<rparr>)) = [5]
   \<and> (0::u32) \<notin> set (notify_sqns (new_calls (world_with (ascii ''hi''))
        ((world_with (ascii ''hi''))
          \<lparr>owner := [200 \<mapsto> Runtime], calls := [CallSessionNotify 7 5 100]\<rparr>)))"
proof -
  have nz: "(5::u32) \<noteq> 0" by simp
  from echoed_sqn_nonzero [OF nz notify_hi_run] nz show ?thesis
    by simp
qed

text \<open>
  C6. The handler keeps no state of its own and neither reads nor writes shared state.
  In order, the statement says:
  \<^item> a run that returns makes the calls that its arguments alone determine, so two
    invocations with the same arguments make the same calls, whatever the states they
    start in and whatever the runtime answers;
  \<^item> the state a run returns is the state at entry, or exactly the state that the call
    of \<^verbatim>\<open>ENSSessionNotify\<close> with the handler's arguments left: the handler writes
    nothing itself; the same holds of every single step;
  \<^item> any change \<open>g\<close> of the state that the notify call lets through passes through
    the handler: the handler reads nothing itself; a step that is not the call does
    not depend on the state and leaves it as it is;
  \<^item> when two invocations run interleaved on one shared state, under any schedule,
    then once both have returned the state is the one that the two leave when one runs
    after the other, in one of the two orders, and the log has grown by the calls of
    the one and the calls of the other.
\<close>

theorem handler_reentrant:
  "(event_handler impl1 session_id event_type sqn data w1 = Some w1' \<longrightarrow>
      new_calls w1 w1' = handler_calls session_id event_type sqn data
      \<and> (event_handler impl2 session_id event_type sqn data w2 = Some w2' \<longrightarrow>
           new_calls w1 w1' = new_calls w2 w2'))
   \<and> (event_handler impl session_id event_type sqn data w = Some wr \<longrightarrow>
        wr = w \<or> (\<exists>ok. event_type = EVENT_NOTIFY
                      \<and> ENSSessionNotify impl session_id sqn data w = Some (ok, wr)))
   \<and> (step impl f w = (f', ws) \<longrightarrow>
        ws = w \<or> (\<exists>ok. fr_pc f = AtNotify
                      \<and> ENSSessionNotify impl (fr_session_id f) (fr_sqn f) (fr_data f) w
                          = Some (ok, ws)))
   \<and> (ENSSessionNotify impl session_id sqn data (g w)
          = map_option (apsnd g) (ENSSessionNotify impl session_id sqn data w) \<longrightarrow>
        event_handler impl session_id event_type sqn data (g w)
          = map_option g (event_handler impl session_id event_type sqn data w))
   \<and> (fr_pc f \<noteq> AtNotify \<longrightarrow> step impl f w = (fst (step impl0 f w0), w))
   \<and> (interleave impl sch
          (invoke session_a event_a sqn_a data_a, invoke session_b event_b sqn_b data_b, w)
          = (fa, fb, w')
        \<and> fr_pc fa = Returned \<and> fr_pc fb = Returned \<longrightarrow>
        ((\<exists>wm. event_handler impl session_a event_a sqn_a data_a w = Some wm
               \<and> event_handler impl session_b event_b sqn_b data_b wm = Some w')
         \<or> (\<exists>wm. event_handler impl session_b event_b sqn_b data_b w = Some wm
               \<and> event_handler impl session_a event_a sqn_a data_a wm = Some w'))
        \<and> (new_calls w w' = handler_calls session_a event_a sqn_a data_a
                             @ handler_calls session_b event_b sqn_b data_b
           \<or> new_calls w w' = handler_calls session_b event_b sqn_b data_b
                             @ handler_calls session_a event_a sqn_a data_a))"
proof -
  have same_calls: "event_handler impl1 session_id event_type sqn data w1 = Some w1' \<longrightarrow>
      new_calls w1 w1' = handler_calls session_id event_type sqn data
      \<and> (event_handler impl2 session_id event_type sqn data w2 = Some w2' \<longrightarrow>
           new_calls w1 w1' = new_calls w2 w2')"
  proof (intro impI conjI)
    assume "event_handler impl1 session_id event_type sqn data w1 = Some w1'"
    then have "calls w1' = calls w1 @ handler_calls session_id event_type sqn data"
      by (rule event_handler_calls)
    then show n1: "new_calls w1 w1' = handler_calls session_id event_type sqn data"
      by (rule new_calls_append)
    assume "event_handler impl2 session_id event_type sqn data w2 = Some w2'"
    then have "calls w2' = calls w2 @ handler_calls session_id event_type sqn data"
      by (rule event_handler_calls)
    then have "new_calls w2 w2' = handler_calls session_id event_type sqn data"
      by (rule new_calls_append)
    with n1 show "new_calls w1 w1' = new_calls w2 w2'"
      by simp
  qed
  have writes_big: "event_handler impl session_id event_type sqn data w = Some wr \<longrightarrow>
        wr = w \<or> (\<exists>ok. event_type = EVENT_NOTIFY
                      \<and> ENSSessionNotify impl session_id sqn data w = Some (ok, wr))"
    using event_handler_whole_state by blast
  have writes_step: "step impl f w = (f', ws) \<longrightarrow>
        ws = w \<or> (\<exists>ok. fr_pc f = AtNotify
                      \<and> ENSSessionNotify impl (fr_session_id f) (fr_sqn f) (fr_data f) w
                          = Some (ok, ws))"
    using step_whole_state by blast
  have reads_big: "ENSSessionNotify impl session_id sqn data (g w)
          = map_option (apsnd g) (ENSSessionNotify impl session_id sqn data w) \<longrightarrow>
        event_handler impl session_id event_type sqn data (g w)
          = map_option g (event_handler impl session_id event_type sqn data w)"
    using event_handler_equivariant by blast
  have reads_step: "fr_pc f \<noteq> AtNotify \<longrightarrow> step impl f w = (fst (step impl0 f w0), w)"
    by (cases "fr_pc f") (simp_all add: step_def)
  have serial: "interleave impl sch
          (invoke session_a event_a sqn_a data_a, invoke session_b event_b sqn_b data_b, w)
          = (fa, fb, w')
        \<and> fr_pc fa = Returned \<and> fr_pc fb = Returned \<longrightarrow>
        ((\<exists>wm. event_handler impl session_a event_a sqn_a data_a w = Some wm
               \<and> event_handler impl session_b event_b sqn_b data_b wm = Some w')
         \<or> (\<exists>wm. event_handler impl session_b event_b sqn_b data_b w = Some wm
               \<and> event_handler impl session_a event_a sqn_a data_a wm = Some w'))
        \<and> (new_calls w w' = handler_calls session_a event_a sqn_a data_a
                             @ handler_calls session_b event_b sqn_b data_b
           \<or> new_calls w w' = handler_calls session_b event_b sqn_b data_b
                             @ handler_calls session_a event_a sqn_a data_a)"
  proof
    assume r: "interleave impl sch
          (invoke session_a event_a sqn_a data_a, invoke session_b event_b sqn_b data_b, w)
          = (fa, fb, w')
        \<and> fr_pc fa = Returned \<and> fr_pc fb = Returned"
    then have run: "interleave impl sch
          (invoke session_a event_a sqn_a data_a, invoke session_b event_b sqn_b data_b, w)
          = (fa, fb, w')" and ra: "fr_pc fa = Returned" and rb: "fr_pc fb = Returned"
      by simp_all
    from interleave_serial [OF reachable_invoke reachable_invoke run ra rb]
    have s: "(\<exists>wm. event_handler impl session_a event_a sqn_a data_a w = Some wm
               \<and> event_handler impl session_b event_b sqn_b data_b wm = Some w')
         \<or> (\<exists>wm. event_handler impl session_b event_b sqn_b data_b w = Some wm
               \<and> event_handler impl session_a event_a sqn_a data_a wm = Some w')"
      by (simp add: finish_invoke)
    from interleave_log [OF reachable_invoke reachable_invoke run ra rb]
    have l: "new_calls w w' = handler_calls session_a event_a sqn_a data_a
                             @ handler_calls session_b event_b sqn_b data_b
           \<or> new_calls w w' = handler_calls session_b event_b sqn_b data_b
                             @ handler_calls session_a event_a sqn_a data_a"
      by (auto simp: pending_invoke new_calls_def)
    from s l show "((\<exists>wm. event_handler impl session_a event_a sqn_a data_a w = Some wm
               \<and> event_handler impl session_b event_b sqn_b data_b wm = Some w')
         \<or> (\<exists>wm. event_handler impl session_b event_b sqn_b data_b w = Some wm
               \<and> event_handler impl session_a event_a sqn_a data_a wm = Some w'))
        \<and> (new_calls w w' = handler_calls session_a event_a sqn_a data_a
                             @ handler_calls session_b event_b sqn_b data_b
           \<or> new_calls w w' = handler_calls session_b event_b sqn_b data_b
                             @ handler_calls session_a event_a sqn_a data_a)"
      by (rule conjI)
  qed
  from same_calls writes_big writes_step reads_big reads_step serial show ?thesis
    by (intro conjI)
qed

theorem handler_reentrant_witness:
  "new_calls (world_with_two (ascii ''hi'') (ascii ''yo''))
     (snd (snd (interleave notify_ok [False, True, False, True]
        (invoke 7 EVENT_NOTIFY 5 100, invoke 7 EVENT_NOTIFY 6 101,
         world_with_two (ascii ''hi'') (ascii ''yo'')))))
     = [CallSessionNotify 7 6 101, CallSessionNotify 7 5 100]
   \<and> event_handler notify_ok 7 EVENT_NOTIFY 5 100
       (the (event_handler notify_ok 7 EVENT_NOTIFY 6 101
          (world_with_two (ascii ''hi'') (ascii ''yo''))))
     = Some (snd (snd (interleave notify_ok [False, True, False, True]
        (invoke 7 EVENT_NOTIFY 5 100, invoke 7 EVENT_NOTIFY 6 101,
         world_with_two (ascii ''hi'') (ascii ''yo'')))))
   \<and> event_handler notify_ok 7 EVENT_NOTIFY 5 100 (touch (world_with (ascii ''hi'')))
     = map_option touch
         (event_handler notify_ok 7 EVENT_NOTIFY 5 100 (world_with (ascii ''hi'')))"
proof -
  let ?w = "world_with_two (ascii ''hi'') (ascii ''yo'')"
  let ?w' = "?w\<lparr>owner := [200 \<mapsto> Runtime, 201 \<mapsto> Runtime],
                 calls := [CallSessionNotify 7 6 101, CallSessionNotify 7 5 100]\<rparr>"
  let ?fa = "(invoke 7 EVENT_NOTIFY 5 100)\<lparr>fr_pc := Returned\<rparr>"
  let ?fb = "(invoke 7 EVENT_NOTIFY 6 101)\<lparr>fr_pc := Returned\<rparr>"
  have fin: "interleave notify_ok [False, True, False, True]
        (invoke 7 EVENT_NOTIFY 5 100, invoke 7 EVENT_NOTIFY 6 101, ?w) = (?fa, ?fb, ?w')
      \<and> fr_pc ?fa = Returned \<and> fr_pc ?fb = Returned"
    using two_notifies_run by simp
  have first_alone: "event_handler notify_ok 7 EVENT_NOTIFY 5 100 ?w
     = Some (?w\<lparr>owner := [200 \<mapsto> Runtime, 201 \<mapsto> Workload],
                calls := [CallSessionNotify 7 5 100]\<rparr>)"
    by (simp add: event_handler_def ENSSessionNotify_def notify_ok_def
        transfer_to_runtime_def world_with_two_def EVENT_NOTIFY_def fun_upd_twist)
  have after_first: "event_handler notify_ok 7 EVENT_NOTIFY 6 101
       (?w\<lparr>owner := [200 \<mapsto> Runtime, 201 \<mapsto> Workload],
           calls := [CallSessionNotify 7 5 100]\<rparr>) \<noteq> Some ?w'"
    by (simp add: event_handler_def ENSSessionNotify_def notify_ok_def
        transfer_to_runtime_def world_with_two_def EVENT_NOTIFY_def)
  note all = handler_reentrant [where impl = notify_ok and sch = "[False, True, False, True]"
      and session_a = 7 and event_a = EVENT_NOTIFY and sqn_a = 5 and data_a = 100
      and session_b = 7 and event_b = EVENT_NOTIFY and sqn_b = 6 and data_b = 101
      and w = ?w and w' = ?w' and fa = ?fa and fb = ?fb]
  note both = all [THEN conjunct2, THEN conjunct2, THEN conjunct2, THEN conjunct2,
      THEN conjunct2, THEN mp, OF fin]
  from both [THEN conjunct1] first_alone after_first second_then_first_run
  have serial: "event_handler notify_ok 7 EVENT_NOTIFY 5 100
       (the (event_handler notify_ok 7 EVENT_NOTIFY 6 101 ?w)) = Some ?w'"
    by auto
  from both [THEN conjunct2]
  have log: "new_calls ?w ?w' = [CallSessionNotify 7 6 101, CallSessionNotify 7 5 100]"
    by (simp add: handler_calls_eq new_calls_def world_with_two_def)
  note reads = handler_reentrant [where impl = notify_ok and g = touch
      and session_id = 7 and event_type = EVENT_NOTIFY and sqn = 5 and data = 100
      and w = "world_with (ascii ''hi'')",
      THEN conjunct2, THEN conjunct2, THEN conjunct2, THEN conjunct1, THEN mp,
      OF touch_commutes]
  from serial log reads two_notifies_run show ?thesis
    by simp
qed

text \<open>
  C7. The handler never waits for the remote side: on every path that returns, each API
  call of the run is the \<^verbatim>\<open>ENSSessionNotify\<close> call with the handler's own arguments,
  which is not a blocking operation; in particular none is a request or an end.
\<close>

theorem only_nonblocking_notify:
  assumes "event_handler impl session_id event_type sqn data w = Some w'"
  shows "calls w' = calls w @ new_calls w w'
         \<and> (\<forall>c \<in> set (new_calls w w').
               c = CallSessionNotify session_id sqn data \<and> \<not> blocking c)"
proof -
  have c: "calls w' = calls w @ handler_calls session_id event_type sqn data"
    using assms by (rule event_handler_calls)
  then have "new_calls w w' = handler_calls session_id event_type sqn data"
    by (rule new_calls_append)
  with c show ?thesis
    by (simp add: handler_calls_eq)
qed

theorem only_nonblocking_notify_witness:
  "new_calls (world_with (ascii ''hi''))
        ((world_with (ascii ''hi''))
          \<lparr>owner := [200 \<mapsto> Runtime], calls := [CallSessionNotify 7 5 100]\<rparr>)
     = [CallSessionNotify 7 5 100]
   \<and> \<not> blocking (CallSessionNotify 7 5 100)
   \<and> new_calls (world_with (ascii ''ping'')) (world_with (ascii ''ping'')) = []"
  using only_nonblocking_notify [OF notify_hi_run] only_nonblocking_notify [OF request_ping_run]
  by (simp add: new_calls_def world_with_def)

text \<open>
  C8, as the claim states it, fails: in the round trip \<open>request(session=7, sqn=42,
  data="ping")\<close> with this handler as workload B, the userdata after the callback is not
  \<open>"pong"\<close>, and A's request does not return \<open>"pong"\<close>.
\<close>

theorem round_trip_pong_counterexample:
  "user_data (the (event_handler notify_ok 7 EVENT_REQUEST 42 100
       (world_with (ascii ''ping'')))) 100 \<noteq> Some (ascii ''pong'')
   \<and> round_trip (event_handler notify_ok) 7 42 (ascii ''ping'')
       \<noteq> (True, Some (ascii ''pong''))"
  by (simp add: round_trip_def dispatch_request_def event_handler_other
      EVENT_REQUEST_def EVENT_NOTIFY_def user_data_world_with ascii_ping ascii_pong)

text \<open>
  C8, amended. In the round trip \<open>request(session=7, sqn=42, data="ping")\<close> with this
  handler as workload B, the callback receives \<open>(7, REQUEST, 42, "ping")\<close> and leaves the
  userdata as it is, \<open>"ping"\<close>, and A's request returns true with userdata \<open>"ping"\<close>.
\<close>

theorem round_trip_echoes_ping:
  "event_handler impl 7 EVENT_REQUEST 42 100 (world_with (ascii ''ping''))
     = Some (world_with (ascii ''ping''))
   \<and> user_data (world_with (ascii ''ping'')) 100 = Some (ascii ''ping'')
   \<and> round_trip (event_handler impl) 7 42 (ascii ''ping'') = (True, Some (ascii ''ping''))"
  by (simp add: round_trip_def dispatch_request_def event_handler_other
      EVENT_REQUEST_def EVENT_NOTIFY_def user_data_world_with ascii_ping)

theorem round_trip_echoes_ping_witness:
  "round_trip (event_handler notify_fails) 7 42 (ascii ''ping'')
     = (True, Some [0x70, 0x69, 0x6E, 0x67])"
  using round_trip_echoes_ping [of notify_fails]
  by (simp add: ascii_ping)

text \<open>
  C9. The handler returns for every tuple of arguments, given that the notify call it
  makes for a notify event returns: the function gives a state, and the machine of
  program points, started at \<open>Entry\<close>, has returned after two steps, the test and at most
  one call, with that same state. (Without the proviso it does not: see
  \<open>notify_hangs_handler_hangs\<close>.)
\<close>

theorem event_handler_terminates:
  assumes "event_type = EVENT_NOTIFY \<longrightarrow> impl session_id sqn data w \<noteq> None"
  shows "\<exists>w'. event_handler impl session_id event_type sqn data w = Some w'
           \<and> steps impl (Suc (Suc 0)) (invoke session_id event_type sqn data, w)
               = ((invoke session_id event_type sqn data)\<lparr>fr_pc := Returned\<rparr>, w')"
proof (cases "event_type = EVENT_NOTIFY")
  case True
  with assms obtain ok w1 where "impl session_id sqn data w = Some (ok, w1)"
    by auto
  then have "ENSSessionNotify impl session_id sqn data w =
     Some (ok, w1\<lparr>owner := transfer_to_runtime w data,
                  calls := calls w @ [CallSessionNotify session_id sqn data]\<rparr>)"
    by (rule ENSSessionNotify_returns)
  with True show ?thesis
    by (simp add: event_handler_def step_entry) (simp add: step_def invoke_def)
next
  case False
  then show ?thesis
    by (simp add: event_handler_def step_entry) (simp add: step_def invoke_def)
qed

theorem event_handler_terminates_witness:
  "event_handler notify_ok 7 EVENT_NOTIFY 5 100 (world_with (ascii ''hi'')) \<noteq> None
   \<and> fr_pc (fst (steps notify_ok (Suc (Suc 0))
        (invoke 7 EVENT_NOTIFY 5 100, world_with (ascii ''hi'')))) = Returned
   \<and> event_handler notify_hangs 7 EVENT_SESSION_END 0 0 (world_with []) \<noteq> None"
proof -
  have a: "EVENT_NOTIFY = EVENT_NOTIFY \<longrightarrow>
      notify_ok 7 5 100 (world_with (ascii ''hi'')) \<noteq> None"
    by (simp add: notify_ok_def)
  have b: "EVENT_SESSION_END = EVENT_NOTIFY \<longrightarrow>
      notify_hangs 7 0 0 (world_with []) \<noteq> None"
    by (simp add: EVENT_SESSION_END_def EVENT_NOTIFY_def)
  from event_handler_terminates [where impl = notify_ok, OF a]
    event_handler_terminates [where impl = notify_hangs, OF b]
  show ?thesis
    by auto
qed

end
